theory Spec2Isabelle
  imports Complex_Main
begin

section \<open>Documents and the store\<close>

text \<open>
  Modelled from the spec: the declarations of \<open>Theme\<close> and \<open>Extension\<close>
  (\<open>../Models/theme\<close>, \<open>../Models/extension\<close>) are not among the sources. The
  records carry the fields the handlers and the stored procedure read: a document id, the
  cross-reference \<open>extensionId\<close>, the flag \<open>imageCaptured\<close> the sampling query
  filters on (a document without the flag does not match, so it is \<open>False\<close> here),
  and the extension's \<open>displayName\<close>.
\<close>

record Theme =
  themeId :: string
  themeExtensionId :: string
  imageCaptured :: bool

record Extension =
  extId :: string
  extensionId :: string
  displayName :: string

text \<open>
  A continuation token is an opaque cursor issued by the store. The model's store issues
  the offset into the sequence of matching documents at which the next page starts.
  \<open>None\<close> stands for every falsy token of the script: \<open>null\<close>, \<open>undefined\<close> and the
  empty string; a token the store issued is truthy.
\<close>

type_synonym token = "nat option"

text \<open>The projection \<open>select c.id\<close>: a feed element \<open>{id: x}\<close> is its \<open>x\<close>.\<close>

type_synonym item = string

section \<open>The stored procedure \<open>getRandomTheme\<close>\<close>

record responseOptions =
  continuation :: token
  pageSize :: nat

record body =
  randomTheme :: "item option"
  continuationToken :: token

text \<open>
  The script's mutable state: the array \<open>result\<close> and the response body of
  \<open>getContext().getResponse()\<close>, absent until \<open>setBody\<close> stores one.
\<close>

record sproc_state =
  result :: "item list"
  response :: "body option"

text \<open>
  The execution host of one invocation. Each element is one query the host still accepts
  before its time limit: \<open>Delivered n\<close> reads a page of at most \<open>n\<close> documents (the
  store may hand out fewer documents than the requested page size), \<open>ReadErr e\<close> calls
  the callback with the error \<open>e\<close>. Once the list is used up the host is near its time
  limit and \<open>queryDocuments\<close> returns \<open>false\<close> without calling back.
\<close>

datatype read_outcome = Delivered nat | ReadErr string

type_synonym host = "read_outcome list"

definition maxResult :: nat where
  "maxResult = 1000"

text \<open>The store's answer to \<open>select c.id from c where c.imageCaptured = true\<close>.\<close>

definition matching :: "Theme list \<Rightarrow> item list" where
  "matching docs = map themeId (filter imageCaptured docs)"

definition offset_of :: "token \<Rightarrow> nat" where
  "offset_of t = (case t of None \<Rightarrow> 0 | Some k \<Rightarrow> k)"

text \<open>
  One page of the query, read at the offset of the token in \<open>opts\<close>: at most
  \<open>pageSize opts\<close> and at most \<open>n\<close> matching documents, and the token of the next
  page when matching documents remain.
\<close>

definition page :: "Theme list \<Rightarrow> nat \<Rightarrow> responseOptions \<Rightarrow> item list \<times> token" where
  "page docs n opts =
     (let ms = matching docs;
          off = offset_of (continuation opts);
          k = min (pageSize opts) n
      in (take k (drop off ms), if off + k < length ms then Some (off + k) else None))"

text \<open>
  \<open>collection.queryDocuments(link, filterQuery, responseOptions, callback)\<close>: \<open>None\<close>
  when the host does not accept the query (the call returns \<open>false\<close>), otherwise the
  arguments \<open>(err, docFeed, responseOptions)\<close> the callback is called with and the rest
  of the host.
\<close>

fun queryDocuments ::
  "Theme list \<Rightarrow> host \<Rightarrow> responseOptions \<Rightarrow>
     ((string option \<times> item list \<times> responseOptions) \<times> host) option" where
  "queryDocuments docs [] opts = None"
| "queryDocuments docs (ReadErr e # h) opts = Some ((Some e, [], opts), h)"
| "queryDocuments docs (Delivered n # h) opts =
     (let (feed, next) = page docs n opts
      in Some ((None, feed, opts\<lparr>continuation := next\<rparr>), h))"

text \<open>
  \<open>Math.floor(Math.random() * (max - min + 1)) + min\<close>, with \<open>r\<close> the value of
  \<open>Math.random()\<close>.
\<close>

definition getRandomInt :: "rat \<Rightarrow> int \<Rightarrow> int \<Rightarrow> int" where
  "getRandomInt r mn mx = \<lfloor>r * of_int (mx - mn + 1)\<rfloor> + mn"

text \<open>Indexing a JavaScript array: \<open>undefined\<close> outside the array.\<close>

definition js_index :: "'a list \<Rightarrow> int \<Rightarrow> 'a option" where
  "js_index xs i = (if 0 \<le> i \<and> i < int (length xs) then Some (xs ! nat i) else None)"

definition setBody :: "rat \<Rightarrow> token \<Rightarrow> sproc_state \<Rightarrow> sproc_state" where
  "setBody r ct st =
     (let randomIndex = getRandomInt r 0 (int (length (result st)) - 1);
          b = \<lparr>randomTheme = js_index (result st) randomIndex, continuationToken = ct\<rparr>
      in st\<lparr>response := Some b\<rparr>)"

text \<open>
  \<open>filterQuery\<close> is a non-empty constant, so \<open>query\<close> always takes the
  \<open>queryDocuments\<close> branch of its conditional.
\<close>

definition query ::
  "Theme list \<Rightarrow> host \<Rightarrow> responseOptions \<Rightarrow>
     ((string option \<times> item list \<times> responseOptions) \<times> host) option" where
  "query docs h opts = queryDocuments docs h opts"

text \<open>
  \<open>tryQuery\<close> and the callback \<open>onReadDocuments\<close> call each other. The callback runs
  after \<open>tryQuery\<close> has returned, and nothing follows the call of \<open>query\<close> in
  \<open>tryQuery\<close>, so the two run in sequence. \<open>Inl\<close> is the string the callback throws.
\<close>

function tryQuery :: "Theme list \<Rightarrow> rat \<Rightarrow> host \<Rightarrow> token \<Rightarrow> sproc_state \<Rightarrow> string + sproc_state"
  and onReadDocuments ::
    "Theme list \<Rightarrow> rat \<Rightarrow> host \<Rightarrow> string option \<times> item list \<times> responseOptions \<Rightarrow>
       sproc_state \<Rightarrow> string + sproc_state" where
  "tryQuery docs r h nextContinuationToken st =
     (let opts = \<lparr>continuation = nextContinuationToken, pageSize = maxResult\<rparr>
      in if length (result st) \<ge> maxResult then Inr (setBody r nextContinuationToken st)
         else (case query docs h opts of
                 None \<Rightarrow> Inr (setBody r nextContinuationToken st)
               | Some (args, h') \<Rightarrow> onReadDocuments docs r h' args st))"
| "onReadDocuments docs r h (err, docFeed, opts) st =
     (case err of
        Some e \<Rightarrow> Inl (''Error while reading document: '' @ e)
      | None \<Rightarrow>
          (let st' = st\<lparr>result := result st @ docFeed\<rparr>
           in (case continuation opts of
                 Some t \<Rightarrow> tryQuery docs r h (Some t) st'
               | None \<Rightarrow> Inr (setBody r None st'))))"
  by pat_completeness auto
termination
  by (relation "measure (\<lambda>x. case x of
                    Inl (docs, r, h, t, st) \<Rightarrow> 2 * length h + 1
                  | Inr (docs, r, h, args, st) \<Rightarrow> 2 * length h + 2)")
     (auto simp: query_def elim!: queryDocuments.elims split: prod.splits)

text \<open>
  One invocation of the script: \<open>var result = []; tryQuery(continuationToken)\<close>,
  returning the script's final state. \<open>getRandomTheme\<close> is what the caller of the
  procedure receives: the thrown string, or the response body.
\<close>

definition invoke :: "Theme list \<Rightarrow> host \<Rightarrow> rat \<Rightarrow> token \<Rightarrow> string + sproc_state" where
  "invoke docs h r ct = tryQuery docs r h ct \<lparr>result = [], response = None\<rparr>"

definition getRandomTheme :: "Theme list \<Rightarrow> host \<Rightarrow> rat \<Rightarrow> token \<Rightarrow> string + body option" where
  "getRandomTheme docs h r ct = map_sum (\<lambda>e. e) response (invoke docs h r ct)"


text \<open>
  The caller-side resumption the spec describes, which no code of the repository
  performs: the procedure is invoked again with each token it returns until the token is
  null. Each invocation has a host and a random value of its own; the result is the final
  states of the invocations made. It stops at an invocation that throws and when no
  further invocation is given.
\<close>

definition returned :: "sproc_state \<Rightarrow> token" where
  "returned st = (case response st of None \<Rightarrow> None | Some b \<Rightarrow> continuationToken b)"

fun reinvoke :: "Theme list \<Rightarrow> (host \<times> rat) list \<Rightarrow> token \<Rightarrow> sproc_state list" where
  "reinvoke docs [] ct = []"
| "reinvoke docs ((h, r) # envs) ct =
     (case invoke docs h r ct of
        Inl e \<Rightarrow> []
      | Inr st \<Rightarrow>
          st # (case returned st of None \<Rightarrow> [] | Some t \<Rightarrow> reinvoke docs envs (Some t)))"

text \<open>
  A host that accepts the first query of its invocation and reads it without error, the
  store filling the page up to the requested size.
\<close>

definition fills :: "host \<Rightarrow> bool" where
  "fills h = (case h of Delivered n # _ \<Rightarrow> maxResult \<le> n | _ \<Rightarrow> False)"

text \<open>
  The number of documents an invocation reads from a container that does not run out,
  \<open>acc\<close> being the number it holds already: as \<open>tryQuery\<close> does, it stops once the cap
  is reached and when the host accepts no further query, and each page read holds at most
  \<open>pageSize\<close> documents.
\<close>

fun reads :: "nat \<Rightarrow> host \<Rightarrow> nat" where
  "reads acc [] = acc"
| "reads acc (ReadErr e # h) = acc"
| "reads acc (Delivered n # h) =
     (if maxResult \<le> acc then acc else reads (acc + min maxResult n) h)"

text \<open>Whether an invocation of the resumption throws (a read fails).\<close>

fun aborts :: "Theme list \<Rightarrow> (host \<times> rat) list \<Rightarrow> token \<Rightarrow> bool" where
  "aborts docs [] ct = False"
| "aborts docs ((h, r) # envs) ct =
     (case invoke docs h r ct of
        Inl e \<Rightarrow> True
      | Inr st \<Rightarrow> (case returned st of None \<Rightarrow> False | Some t \<Rightarrow> aborts docs envs (Some t)))"

section \<open>The store as the handlers see it\<close>

text \<open>
  A stored procedure's body is held as what the script computes when it is executed: from
  the documents of its container, the execution host, the value \<open>Math.random()\<close>
  returns and the continuation token it is called with, to the string it throws or the
  response body it sets. The body the code installs is \<open>getRandomTheme\<close>.
\<close>

type_synonym script = "Theme list \<Rightarrow> host \<Rightarrow> rat \<Rightarrow> token \<Rightarrow> string + body option"

record StoredProcedureDefinition =
  defId :: string
  defBody :: script

text \<open>A handle \<open>container.scripts.storedProcedure(id)\<close>: it names a procedure.\<close>

datatype StoredProcedure = StoredProcedure string

record themes_container =
  items :: "Theme list"
  sprocs :: "StoredProcedureDefinition list"

text \<open>
  The database account: whether the database \<open>onlyThemesDb\<close> exists, its containers
  \<open>themes\<close> and \<open>extensions\<close> (\<open>None\<close> while a container does not exist), and the
  history of the executions of stored procedures: the procedure's id and the
  continuation token passed.
\<close>

record world =
  databaseExists :: bool
  themes :: "themes_container option"
  extensions :: "Extension list option"
  executions :: "(string \<times> token) list"

datatype error = TypeError string | Thrown string | ExecuteError string

datatype response_body =
  NoBody | IdBody string | ErrBody string | PairBody "Theme option" "Extension option"

record http_response =
  status :: nat
  body :: response_body

text \<open>
  The hosting framework's \<open>Context\<close>: the input binding \<open>bindings.extension\<close>
  (\<open>None\<close> when absent), the lines written with \<open>context.log\<close>, and \<open>context.res\<close>.
\<close>

record ctx =
  bindings_extension :: "Extension option"
  logged :: "string list"
  res :: "http_response option"

definition createDatabaseIfNotExists :: "world \<Rightarrow> world" where
  "createDatabaseIfNotExists w = w\<lparr>databaseExists := True\<rparr>"

definition createThemesIfNotExists :: "world \<Rightarrow> themes_container \<times> world" where
  "createThemesIfNotExists w =
     (case themes w of
        None \<Rightarrow> (\<lparr>items = [], sprocs = []\<rparr>, w\<lparr>themes := Some \<lparr>items = [], sprocs = []\<rparr>\<rparr>)
      | Some c \<Rightarrow> (c, w))"

definition createExtensionsIfNotExists :: "world \<Rightarrow> Extension list \<times> world" where
  "createExtensionsIfNotExists w =
     (case extensions w of
        None \<Rightarrow> ([], w\<lparr>extensions := Some []\<rparr>)
      | Some es \<Rightarrow> (es, w))"

text \<open>The first element of a JavaScript array, \<open>xs[0]\<close>: \<open>undefined\<close> when empty.\<close>

definition js_first :: "'a list \<Rightarrow> 'a option" where
  "js_first xs = (case xs of [] \<Rightarrow> None | x # _ \<Rightarrow> Some x)"

section \<open>\<open>getStoredProcedure\<close>\<close>

text \<open>
  \<open>storedProcedures.create(definition)\<close>, answered by the store with the status code
  \<open>sc\<close>: the store has installed the definition when the code is a success (2xx).
\<close>

definition storedProcedures_create ::
  "StoredProcedureDefinition \<Rightarrow> nat \<Rightarrow> themes_container \<Rightarrow> themes_container" where
  "storedProcedures_create d sc c =
     (if 200 \<le> sc \<and> sc < 300 then c\<lparr>sprocs := sprocs c @ [d]\<rparr> else c)"

text \<open>
  \<open>None\<close> is the \<open>null\<close> the function returns when the creation does not answer 200.
  The body of the definition is the script text of the source, whose meaning is
  \<open>getRandomTheme\<close> under whatever name it is installed.
\<close>

definition getStoredProcedure ::
  "string \<Rightarrow> themes_container \<Rightarrow> nat \<Rightarrow> StoredProcedure option \<times> themes_container" where
  "getStoredProcedure sprocId container statusCode =
     (let storedProcedures = sprocs container
      in if find (\<lambda>sproc. defId sproc = sprocId) storedProcedures \<noteq> None
         then (Some (StoredProcedure sprocId), container)
         else (let sprocDefinition = \<lparr>defId = sprocId, defBody = getRandomTheme\<rparr>;
                   container' = storedProcedures_create sprocDefinition statusCode container
               in if statusCode = 200 then (Some (StoredProcedure sprocId), container')
                  else (None, container')))"

section \<open>The handler \<open>ThemeExtensionFetch\<close>\<close>

text \<open>
  What one request meets outside the handler: the status code the store answers with
  should the procedure have to be created, and the host and the random value of the
  procedure's execution.
\<close>

record fetch_env =
  createStatus :: nat
  sprocHost :: host
  rnd :: rat

text \<open>
  \<open>sproc.execute(token)\<close>: runs the body stored under the handle's id on the documents
  of the container. A script that throws makes the call fail.
\<close>

definition execute ::
  "StoredProcedure \<Rightarrow> themes_container \<Rightarrow> host \<Rightarrow> rat \<Rightarrow> token \<Rightarrow> error + body option" where
  "execute sp c h r ct =
     (case sp of StoredProcedure i \<Rightarrow>
        (case find (\<lambda>d. defId d = i) (sprocs c) of
           None \<Rightarrow> Inl (ExecuteError ''NotFound'')
         | Some d \<Rightarrow>
             (case defBody d (items c) h r ct of
                Inl e \<Rightarrow> Inl (ExecuteError e)
              | Inr b \<Rightarrow> Inr b)))"

text \<open>
  The first statements of the handler: the database and the two containers are ensured
  and the procedure is fetched or created. The result is the value of \<open>sproc\<close>, the
  themes container and the documents of the extensions container. This handler has no
  branch for a store call that fails, and its store calls are taken to answer; what it
  does depend on is modelled: the status of a creation, a script that throws, and the
  values that come back \<open>undefined\<close>.
\<close>

definition obtainProcedure ::
  "fetch_env \<Rightarrow> world \<Rightarrow> StoredProcedure option \<times> themes_container \<times> Extension list \<times> world" where
  "obtainProcedure env w =
     (let w1 = createDatabaseIfNotExists w;
          (container, w2) = createThemesIfNotExists w1;
          (extensionContainer, w3) = createExtensionsIfNotExists w2;
          (sproc, container') = getStoredProcedure ''getRandomTheme'' container (createStatus env)
      in (sproc, container', extensionContainer, w3\<lparr>themes := Some container'\<rparr>))"

text \<open>
  The handler up to \<open>theme = resources[0]\<close>: it throws without a procedure, executes
  the procedure with \<open>undefined\<close> as its token, and looks the theme up by the id the
  procedure chose. The result is the error thrown on the way, or the value of \<open>theme\<close>
  with the documents of the extensions container.
\<close>

definition resolveTheme :: "fetch_env \<Rightarrow> world \<Rightarrow> (error + Theme option \<times> Extension list) \<times> world" where
  "resolveTheme env w =
     (case obtainProcedure env w of
        (None, container, extensionContainer, w') \<Rightarrow>
          (Inl (Thrown ''An error occurred while fetching the storedProcedure''), w')
      | (Some (StoredProcedure i), container, extensionContainer, w') \<Rightarrow>
          (let w'' = w'\<lparr>executions := executions w' @ [(i, None)]\<rparr>
           in case execute (StoredProcedure i) container (sprocHost env) (rnd env) None of
                Inl e \<Rightarrow> (Inl e, w'')
              | Inr None \<Rightarrow> (Inl (TypeError ''randomTheme''), w'')
              | Inr (Some b) \<Rightarrow>
                  (case randomTheme b of
                     None \<Rightarrow> (Inl (TypeError ''id''), w'')
                   | Some themeId' \<Rightarrow>
                       (let resources = filter (\<lambda>c. themeId c = themeId') (items container)
                        in (Inr (js_first resources, extensionContainer), w'')))))"

text \<open>
  The whole handler. \<open>theme.extensionId\<close> is read before the response is built, so an
  undefined \<open>theme\<close> throws there. The query parameter \<open>userId\<close> is read and not used.
\<close>

definition httpTrigger_ThemeExtensionFetch ::
  "fetch_env \<Rightarrow> string option \<Rightarrow> ctx \<Rightarrow> world \<Rightarrow> error option \<times> ctx \<times> world" where
  "httpTrigger_ThemeExtensionFetch env userId context w =
     (case resolveTheme env w of
        (Inl e, w') \<Rightarrow> (Some e, context, w')
      | (Inr (theme, extensionContainer), w') \<Rightarrow>
          (case theme of
             None \<Rightarrow> (Some (TypeError ''extensionId''), context, w')
           | Some t \<Rightarrow>
               (let extensionResources =
                      filter (\<lambda>c. extensionId c = themeExtensionId t) extensionContainer;
                    extension = js_first extensionResources
                in (None,
                    context\<lparr>res := Some \<lparr>status = (if theme \<noteq> None then 200 else 404),
                                          body = PairBody theme extension\<rparr>\<rparr>,
                    w'))))"

section \<open>The handler \<open>ExtensionUpsert\<close>\<close>

text \<open>
  The store call of the \<open>try\<close> block that fails, with the error it throws, if any.
\<close>

datatype fault = NoFault | DatabaseFault string | ContainerFault string | UpsertFault string

text \<open>\<open>container.items.upsert(doc)\<close>: insert, or replace the document of the same id.\<close>

definition upsert :: "Extension \<Rightarrow> Extension list \<Rightarrow> Extension list" where
  "upsert e es =
     (if extId e \<in> set (map extId es)
      then map (\<lambda>x. if extId x = extId e then e else x) es
      else es @ [e])"

text \<open>The \<open>try\<close>/\<open>catch\<close> statement.\<close>

definition tryUpsert :: "fault \<Rightarrow> Extension \<Rightarrow> ctx \<Rightarrow> world \<Rightarrow> ctx \<times> world" where
  "tryUpsert f extension context w =
     (case f of
        DatabaseFault err \<Rightarrow> (context\<lparr>res := Some \<lparr>status = 500, body = ErrBody err\<rparr>\<rparr>, w)
      | ContainerFault err \<Rightarrow>
          (context\<lparr>res := Some \<lparr>status = 500, body = ErrBody err\<rparr>\<rparr>,
           createDatabaseIfNotExists w)
      | UpsertFault err \<Rightarrow>
          (context\<lparr>res := Some \<lparr>status = 500, body = ErrBody err\<rparr>\<rparr>,
           snd (createExtensionsIfNotExists (createDatabaseIfNotExists w)))
      | NoFault \<Rightarrow>
          (let (container, w') = createExtensionsIfNotExists (createDatabaseIfNotExists w);
               resource = extension
           in (context\<lparr>res := Some \<lparr>status = 200, body = IdBody (extId resource)\<rparr>\<rparr>,
               w'\<lparr>extensions := Some (upsert extension container)\<rparr>)))"

text \<open>The statement \<open>if (extension) { try ... catch ... }\<close>.\<close>

definition upsertIfPresent :: "fault \<Rightarrow> ctx \<Rightarrow> world \<Rightarrow> ctx \<times> world" where
  "upsertIfPresent f context w =
     (case bindings_extension context of
        None \<Rightarrow> (context, w)
      | Some extension \<Rightarrow> tryUpsert f extension context w)"

text \<open>
  The handler: the log line reads \<open>extension.displayName\<close> and throws a \<open>TypeError\<close>
  on an absent extension; then the guarded \<open>try\<close> statement; then the assignment of
  the 404 response.
\<close>

definition httpTrigger_ExtensionUpsert :: "fault \<Rightarrow> ctx \<Rightarrow> world \<Rightarrow> error option \<times> ctx \<times> world" where
  "httpTrigger_ExtensionUpsert f context w =
     (case bindings_extension context of
        None \<Rightarrow> (Some (TypeError ''displayName''), context, w)
      | Some extension \<Rightarrow>
          (let context1 = context\<lparr>logged := logged context @ [''DataParser: '' @ displayName extension]\<rparr>;
               (context2, w') = upsertIfPresent f context1 w
           in (None, context2\<lparr>res := Some \<lparr>status = 404, body = NoBody\<rparr>\<rparr>, w')))"

section \<open>Properties of the stored procedure\<close>

text \<open>
  The equations of \<open>tryQuery\<close> and \<open>onReadDocuments\<close> are unfolded where a proof
  asks for them, not by the simplifier on its own.
\<close>

declare tryQuery.simps [simp del] onReadDocuments.simps [simp del]

lemmas fetch_defs = httpTrigger_ThemeExtensionFetch_def resolveTheme_def obtainProcedure_def
  createDatabaseIfNotExists_def createThemesIfNotExists_def createExtensionsIfNotExists_def
  getStoredProcedure_def storedProcedures_create_def execute_def js_first_def

lemmas sproc_defs = getRandomInt_def js_index_def setBody_def getRandomTheme_def invoke_def
  tryQuery.simps onReadDocuments.simps query_def page_def matching_def maxResult_def Let_def
  offset_of_def

lemma getRandomInt_range:
  assumes "0 \<le> r" "r < 1" "0 < n"
  shows "0 \<le> getRandomInt r 0 (int n - 1) \<and> getRandomInt r 0 (int n - 1) < int n"
proof -
  have a: "0 \<le> r * of_int (int n)" using assms by simp
  have b: "r * of_int (int n) < of_int (int n)" using assms by simp
  have "0 \<le> \<lfloor>r * of_int (int n)\<rfloor>" using a by simp
  moreover have "\<lfloor>r * of_int (int n)\<rfloor> < int n" using b by (simp add: floor_less_iff)
  ultimately show ?thesis by (simp add: getRandomInt_def)
qed

lemma js_index_in:
  assumes "0 \<le> r" "r < 1" "xs \<noteq> []"
  shows "\<exists>x. js_index xs (getRandomInt r 0 (int (length xs) - 1)) = Some x \<and> x \<in> set xs"
proof -
  have "0 < length xs" using assms by simp
  from getRandomInt_range[OF assms(1,2) this]
  have "nat (getRandomInt r 0 (int (length xs) - 1)) < length xs"
    and "js_index xs (getRandomInt r 0 (int (length xs) - 1))
           = Some (xs ! nat (getRandomInt r 0 (int (length xs) - 1)))"
    by (simp_all add: js_index_def nat_less_iff)
  then show ?thesis by simp
qed

lemma result_setBody: "result (setBody r ct st) = result st"
  by (simp add: setBody_def Let_def)

lemma returned_setBody: "returned (setBody r ct st) = ct"
  by (simp add: setBody_def returned_def Let_def)

lemma set_page: "page docs n opts = (feed, next) \<Longrightarrow> x \<in> set feed \<Longrightarrow> x \<in> set (matching docs)"
  by (auto simp: page_def Let_def dest: in_set_takeD in_set_dropD)

lemma query_feed:
  "query docs h opts = Some ((err, feed, opts'), h') \<Longrightarrow> set feed \<subseteq> set (matching docs)"
  by (auto simp: query_def elim!: queryDocuments.elims split: prod.splits dest: set_page)

lemma scan_grows:
  "tryQuery docs r h ct st = Inr st' \<Longrightarrow> \<exists>rest. result st' = result st @ rest \<and> set rest \<subseteq> set (matching docs)"
  "onReadDocuments docs r h args st = Inr st' \<Longrightarrow> set (fst (snd args)) \<subseteq> set (matching docs) \<Longrightarrow>
     \<exists>rest. result st' = result st @ fst (snd args) @ rest \<and> set rest \<subseteq> set (matching docs)"
proof (induction docs r h ct st and docs r h args st arbitrary: st' and st' rule: tryQuery_onReadDocuments.induct)
  case (1 docs r h ct st)
  show ?case
  proof (cases "maxResult \<le> length (result st)")
    case True
    with 1(2) show ?thesis by (auto simp: tryQuery.simps result_setBody)
  next
    case False
    show ?thesis
    proof (cases "query docs h \<lparr>continuation = ct, pageSize = maxResult\<rparr>")
      case None
      with False 1(2) show ?thesis by (auto simp: tryQuery.simps result_setBody)
    next
      case (Some a)
      obtain err feed opts' h' where a: "a = ((err, feed, opts'), h')" by (cases a) auto
      from Some a have q: "query docs h \<lparr>continuation = ct, pageSize = maxResult\<rparr> = Some ((err, feed, opts'), h')" by simp
      from 1(2) False q have run: "onReadDocuments docs r h' (err, feed, opts') st = Inr st'"
        by (simp add: tryQuery.simps)
      have "\<exists>rest. result st' = result st @ fst (snd (err, feed, opts')) @ rest \<and> set rest \<subseteq> set (matching docs)"
        using 1(1)[OF refl False q refl run] query_feed[OF q] by simp
      then obtain rest where "result st' = result st @ feed @ rest" "set rest \<subseteq> set (matching docs)" by auto
      with query_feed[OF q] show ?thesis by (intro exI[of _ "feed @ rest"]) auto
    qed
  qed
next
  case (2 docs r h err docFeed opts st)
  show ?case
  proof (cases err)
    case (Some e)
    with 2(2) show ?thesis by (simp add: onReadDocuments.simps)
  next
    case None
    show ?thesis
    proof (cases "continuation opts")
      case N: None
      with None 2(2) show ?thesis by (auto simp: onReadDocuments.simps result_setBody)
    next
      case (Some t)
      with None 2(2) have run: "tryQuery docs r h (Some t) (st\<lparr>result := result st @ docFeed\<rparr>) = Inr st'"
        by (simp add: onReadDocuments.simps)
      from 2(1)[OF None refl Some run] show ?thesis by auto
    qed
  qed
qed


lemma scan_all:
  assumes "result st = take off (matching docs)" "offset_of ct = off"
    "off < length (matching docs)" "length (matching docs) < maxResult"
    "length (matching docs) \<le> off + sum_list ns"
  shows "tryQuery docs r (map Delivered ns @ h) ct st
           = Inr (setBody r None (st\<lparr>result := matching docs\<rparr>))"
  using assms
proof (induction ns arbitrary: st off ct)
  case Nil
  then show ?case by simp
next
  case (Cons n ns)
  let ?ms = "matching docs"
  let ?k = "min maxResult n"
  have nocap: "\<not> maxResult \<le> length (result st)" using Cons.prems by simp
  show ?case
  proof (cases "off + ?k < length ?ms")
    case True
    then have kn: "?k = n" using Cons.prems by (simp add: min_def split: if_splits)
    have "tryQuery docs r (map Delivered (n # ns) @ h) ct st
        = tryQuery docs r (map Delivered ns @ h) (Some (off + ?k))
            (st\<lparr>result := result st @ take ?k (drop off ?ms)\<rparr>)"
      using nocap True Cons.prems(2)
      by (simp add: tryQuery.simps onReadDocuments.simps query_def page_def Let_def)
    also have "\<dots> = Inr (setBody r None
                 ((st\<lparr>result := result st @ take ?k (drop off ?ms)\<rparr>)\<lparr>result := ?ms\<rparr>))"
    proof (rule Cons.IH[where off = "off + ?k"])
      show "result (st\<lparr>result := result st @ take ?k (drop off ?ms)\<rparr>) = take (off + ?k) ?ms"
        using Cons.prems(1) by (simp add: take_add)
      show "offset_of (Some (off + ?k)) = off + ?k" by (simp add: offset_of_def)
      show "off + ?k < length ?ms" by (rule True)
      show "length ?ms < maxResult" by (rule Cons.prems(4))
      show "length ?ms \<le> off + ?k + sum_list ns" using Cons.prems(5) kn by simp
    qed
    finally show ?thesis by simp
  next
    case False
    have "result st @ take ?k (drop off ?ms) = take (off + ?k) ?ms"
      using Cons.prems(1) by (simp add: take_add)
    also have "\<dots> = ?ms" using False by simp
    finally have r: "result st @ take ?k (drop off ?ms) = ?ms" .
    show ?thesis
      using nocap False Cons.prems(2) r
      by (simp add: tryQuery.simps onReadDocuments.simps query_def page_def Let_def)
  qed
qed

lemma invoke_filled:
  assumes "fills h" "offset_of ct = off"
  shows "invoke docs h r ct =
           (if off + maxResult < length (matching docs)
            then Inr (setBody r (Some (off + maxResult))
                   \<lparr>result = take maxResult (drop off (matching docs)), response = None\<rparr>)
            else Inr (setBody r None \<lparr>result = drop off (matching docs), response = None\<rparr>))"
proof -
  from assms(1) obtain n h' where h: "h = Delivered n # h'" and n: "maxResult \<le> n"
    by (auto simp: fills_def split: list.splits read_outcome.splits)
  have pos: "0 < maxResult" by (simp add: maxResult_def)
  show ?thesis
  proof (cases "off + maxResult < length (matching docs)")
    case True
    then have len: "length (take maxResult (drop off (matching docs))) = maxResult" by simp
    show ?thesis
      using True n pos assms(2) len unfolding invoke_def h
      by (simp add: tryQuery.simps[of _ _ "_ # _"] onReadDocuments.simps query_def page_def Let_def
            min_absorb1 tryQuery.simps[of _ _ h' "Some _"])
  next
    case False
    then show ?thesis
      using n pos assms(2) unfolding invoke_def h
      by (simp add: tryQuery.simps onReadDocuments.simps query_def page_def Let_def min_absorb1)
  qed
qed

lemma reinvoke_covers:
  assumes "list_all (\<lambda>(h, r). fills h) envs" "offset_of ct = off"
    "length (matching docs) \<le> off + maxResult * length envs" "envs \<noteq> []"
  shows "reinvoke docs envs ct \<noteq> [] \<and>
         returned (last (reinvoke docs envs ct)) = None \<and>
         list_all (\<lambda>st. returned st \<noteq> None) (butlast (reinvoke docs envs ct)) \<and>
         concat (map result (reinvoke docs envs ct)) = drop off (matching docs)"
  using assms
proof (induction envs arbitrary: ct off)
  case Nil
  then show ?case by simp
next
  case (Cons e envs)
  obtain h r where e: "e = (h, r)" by (cases e)
  from Cons.prems(1) e have f: "fills h" and rest: "list_all (\<lambda>(h, r). fills h) envs" by simp_all
  note inv = invoke_filled[OF f Cons.prems(2), of docs r]
  show ?case
  proof (cases "off + maxResult < length (matching docs)")
    case False
    with inv show ?thesis
      by (simp add: e returned_setBody result_setBody)
  next
    case True
    let ?st = "setBody r (Some (off + maxResult))
                 \<lparr>result = take maxResult (drop off (matching docs)), response = None\<rparr>"
    from True Cons.prems(3) have ne: "envs \<noteq> []" by (cases envs) auto
    have o: "offset_of (Some (off + maxResult)) = off + maxResult" by (simp add: offset_of_def)
    have b: "length (matching docs) \<le> off + maxResult + maxResult * length envs"
      using Cons.prems(3) by simp
    note IH = Cons.IH[OF rest o b ne]
    have run: "reinvoke docs (e # envs) ct = ?st # reinvoke docs envs (Some (off + maxResult))"
      using inv True by (simp add: e returned_setBody)
    have "take maxResult (drop off (matching docs)) @ drop (off + maxResult) (matching docs)
            = drop off (matching docs)"
      by (metis add.commute append_take_drop_id drop_drop)
    with IH show ?thesis
      unfolding run by (simp add: returned_setBody result_setBody)
  qed
qed


text \<open>
  Claim C10. When the procedure finalizes with an empty accumulated array it does not
  throw: \<open>getRandomInt(0, -1)\<close> is 0 whatever \<open>Math.random()\<close> returns, index 0 of
  the empty array is absent, and \<open>setBody\<close> stores a body without a \<open>randomTheme\<close>
  whose \<open>continuationToken\<close> is the token \<open>setBody\<close> was called with. The procedure
  ends so when the host accepts no query (whatever the container holds) and when the
  first page of an empty container is read.
\<close>

theorem finalize_empty:
  "getRandomInt r 0 (- 1) = 0 \<and>
   js_index ([] :: item list) 0 = None \<and>
   setBody r ct \<lparr>result = [], response = rsp\<rparr>
     = \<lparr>result = [], response = Some \<lparr>randomTheme = None, continuationToken = ct\<rparr>\<rparr> \<and>
   getRandomTheme docs [] r ct = Inr (Some \<lparr>randomTheme = None, continuationToken = ct\<rparr>) \<and>
   getRandomTheme [] (Delivered n # h) r ct
     = Inr (Some \<lparr>randomTheme = None, continuationToken = None\<rparr>)"
  by (simp add: getRandomInt_def js_index_def setBody_def getRandomTheme_def invoke_def
        tryQuery.simps onReadDocuments.simps query_def page_def matching_def maxResult_def Let_def)

text \<open>
  Claim C7. Documents that do not satisfy \<open>imageCaptured = true\<close> are left out by the
  query: every element of a feed the query hands to the callback is the id of a document of
  the container with \<open>imageCaptured\<close>; the callback appends the feed to \<open>result\<close> as
  it is, without a filter of its own; so every element accumulated by an invocation is the
  id of a matching document.
\<close>

theorem accumulated_matching:
  "(query docs h opts = Some ((err, feed, opts'), h') \<longrightarrow>
      (\<forall>x \<in> set feed. \<exists>d \<in> set docs. imageCaptured d \<and> themeId d = x)) \<and>
   (onReadDocuments docs r h (None, feed, opts) st = Inr st' \<longrightarrow>
      (\<exists>rest. result st' = result st @ feed @ rest)) \<and>
   (invoke docs h r ct = Inr st' \<longrightarrow>
      (\<forall>x \<in> set (result st'). \<exists>d \<in> set docs. imageCaptured d \<and> themeId d = x))"
proof (intro conjI impI)
  have m: "\<And>x. x \<in> set (matching docs) \<Longrightarrow> \<exists>d \<in> set docs. imageCaptured d \<and> themeId d = x"
    by (auto simp: matching_def)
  { assume "query docs h opts = Some ((err, feed, opts'), h')"
    from query_feed[OF this] m
    show "\<forall>x \<in> set feed. \<exists>d \<in> set docs. imageCaptured d \<and> themeId d = x" by blast }
  { assume a: "onReadDocuments docs r h (None, feed, opts) st = Inr st'"
    show "\<exists>rest. result st' = result st @ feed @ rest"
    proof (cases "continuation opts")
      case None
      with a show ?thesis by (auto simp: onReadDocuments.simps result_setBody)
    next
      case (Some t)
      with a have "tryQuery docs r h (Some t) (st\<lparr>result := result st @ feed\<rparr>) = Inr st'"
        by (simp add: onReadDocuments.simps)
      from scan_grows(1)[OF this] show ?thesis by auto
    qed }
  { assume "invoke docs h r ct = Inr st'"
    then have "\<exists>rest. result st' = [] @ rest \<and> set rest \<subseteq> set (matching docs)"
      unfolding invoke_def using scan_grows(1)[of docs r h ct "\<lparr>result = [], response = None\<rparr>" st'] by simp
    with m show "\<forall>x \<in> set (result st'). \<exists>d \<in> set docs. imageCaptured d \<and> themeId d = x" by auto }
qed

theorem accumulated_matching_witness:
  "invoke [\<lparr>themeId = ''a'', themeExtensionId = ''e'', imageCaptured = True\<rparr>,
      \<lparr>themeId = ''b'', themeExtensionId = ''e'', imageCaptured = False\<rparr>,
      \<lparr>themeId = ''c'', themeExtensionId = ''f'', imageCaptured = True\<rparr>] [Delivered 1, Delivered 1] 0 None
     = Inr \<lparr>result = [''a'', ''c''],
            response = Some \<lparr>randomTheme = Some ''a'', continuationToken = None\<rparr>\<rparr> \<and>
   (\<exists>d \<in> set [\<lparr>themeId = ''a'', themeExtensionId = ''e'', imageCaptured = True\<rparr>,
      \<lparr>themeId = ''b'', themeExtensionId = ''e'', imageCaptured = False\<rparr>,
      \<lparr>themeId = ''c'', themeExtensionId = ''f'', imageCaptured = True\<rparr>]. imageCaptured d \<and> themeId d = ''a'') \<and>
   (\<exists>d \<in> set [\<lparr>themeId = ''a'', themeExtensionId = ''e'', imageCaptured = True\<rparr>,
      \<lparr>themeId = ''b'', themeExtensionId = ''e'', imageCaptured = False\<rparr>,
      \<lparr>themeId = ''c'', themeExtensionId = ''f'', imageCaptured = True\<rparr>]. imageCaptured d \<and> themeId d = ''c'')"
proof -
  have run: "invoke [\<lparr>themeId = ''a'', themeExtensionId = ''e'', imageCaptured = True\<rparr>,
      \<lparr>themeId = ''b'', themeExtensionId = ''e'', imageCaptured = False\<rparr>,
      \<lparr>themeId = ''c'', themeExtensionId = ''f'', imageCaptured = True\<rparr>] [Delivered 1, Delivered 1] 0 None
     = Inr \<lparr>result = [''a'', ''c''],
            response = Some \<lparr>randomTheme = Some ''a'', continuationToken = None\<rparr>\<rparr>"
    by (simp add: sproc_defs)
  from accumulated_matching[where docs = "[\<lparr>themeId = ''a'', themeExtensionId = ''e'', imageCaptured = True\<rparr>,
      \<lparr>themeId = ''b'', themeExtensionId = ''e'', imageCaptured = False\<rparr>,
      \<lparr>themeId = ''c'', themeExtensionId = ''f'', imageCaptured = True\<rparr>]"
      and h = "[Delivered 1, Delivered 1]" and r = 0 and ct = None
      and st' = "\<lparr>result = [''a'', ''c''],
        response = Some \<lparr>randomTheme = Some ''a'', continuationToken = None\<rparr>\<rparr>"] run
  show ?thesis by simp
qed

text \<open>
  Claim C2, amended. The container's matching documents are fewer than the cap and at
  least one; the invocation starts with the empty token; the host accepts the queries of
  the scan and reads them without error, the pages read holding together at least as many
  documents as match (\<open>ns\<close> are the sizes the store allows the pages); the random source
  returns a value in \<open>[0, 1)\<close>. Then the invocation accumulates exactly the matching
  documents and sets a body with a null continuation token and a chosen id that is one of
  them.
\<close>

theorem sample_small:
  assumes "matching docs \<noteq> []" "length (matching docs) < maxResult"
    "length (matching docs) \<le> sum_list ns" "0 \<le> r" "r < 1"
  shows "\<exists>x st. invoke docs (map Delivered ns @ h) r None = Inr st \<and>
           result st = matching docs \<and>
           getRandomTheme docs (map Delivered ns @ h) r None
             = Inr (Some \<lparr>randomTheme = Some x, continuationToken = None\<rparr>) \<and>
           x \<in> set (matching docs)"
proof -
  have "invoke docs (map Delivered ns @ h) r None
          = Inr (setBody r None (\<lparr>result = [], response = None\<rparr>\<lparr>result := matching docs\<rparr>))"
    unfolding invoke_def using assms(1-3)
    by (intro scan_all[where off = 0]) (simp_all add: offset_of_def)
  moreover from js_index_in[OF assms(4,5,1)] obtain x
    where "js_index (matching docs) (getRandomInt r 0 (int (length (matching docs)) - 1)) = Some x"
      and "x \<in> set (matching docs)" by blast
  ultimately show ?thesis
    by (simp add: getRandomTheme_def setBody_def Let_def)
qed

theorem sample_small_witness:
  "\<exists>x st. invoke [\<lparr>themeId = ''a'', themeExtensionId = ''e'', imageCaptured = True\<rparr>,
        \<lparr>themeId = ''b'', themeExtensionId = ''e'', imageCaptured = False\<rparr>,
        \<lparr>themeId = ''c'', themeExtensionId = ''f'', imageCaptured = True\<rparr>] (map Delivered [1, 1] @ []) (1/2) None = Inr st \<and>
           result st = [''a'', ''c''] \<and>
           getRandomTheme [\<lparr>themeId = ''a'', themeExtensionId = ''e'', imageCaptured = True\<rparr>,
        \<lparr>themeId = ''b'', themeExtensionId = ''e'', imageCaptured = False\<rparr>,
        \<lparr>themeId = ''c'', themeExtensionId = ''f'', imageCaptured = True\<rparr>] (map Delivered [1, 1] @ []) (1/2) None
             = Inr (Some \<lparr>randomTheme = Some x, continuationToken = None\<rparr>) \<and>
           x \<in> set [''a'', ''c'']"
  using sample_small[of "[\<lparr>themeId = ''a'', themeExtensionId = ''e'', imageCaptured = True\<rparr>,
        \<lparr>themeId = ''b'', themeExtensionId = ''e'', imageCaptured = False\<rparr>,
        \<lparr>themeId = ''c'', themeExtensionId = ''f'', imageCaptured = True\<rparr>]" "[1, 1]" "1/2" "[]"]
  by (simp add: matching_def maxResult_def)

text \<open>
  Claim C2 as stated fails: with no matching document the body has no chosen id; when
  the host accepts no query the body has no chosen id either, although one document
  matches; and a read error makes the invocation throw.
\<close>

theorem sample_small_counterexample:
  "length (matching []) < maxResult \<and>
   getRandomTheme [] [Delivered 1000] (1/2) None
     = Inr (Some \<lparr>randomTheme = None, continuationToken = None\<rparr>) \<and>
   length (matching [\<lparr>themeId = ''a'', themeExtensionId = ''e'', imageCaptured = True\<rparr>]) < maxResult \<and>
   getRandomTheme [\<lparr>themeId = ''a'', themeExtensionId = ''e'', imageCaptured = True\<rparr>] [] (1/2) None
     = Inr (Some \<lparr>randomTheme = None, continuationToken = None\<rparr>) \<and>
   getRandomTheme [\<lparr>themeId = ''a'', themeExtensionId = ''e'', imageCaptured = True\<rparr>] [ReadErr ''x''] (1/2) None
     = Inl ''Error while reading document: x''"
  by (simp add: getRandomInt_def js_index_def setBody_def getRandomTheme_def invoke_def
        tryQuery.simps onReadDocuments.simps query_def page_def matching_def maxResult_def Let_def)

text \<open>
  What one invocation does, whatever the sizes of the pages: it throws, or it ends at the
  offset \<open>reads\<close> gives, with a null token exactly when that offset is past the last
  matching document.
\<close>

lemma reads_ge: "acc \<le> reads acc h"
  by (induction acc h rule: reads.induct) auto

lemma reads_capped: "maxResult \<le> acc \<Longrightarrow> reads acc h = acc"
  by (cases "(acc, h)" rule: reads.cases) auto

lemma scan_reads:
  assumes "result st = take acc (drop off0 (matching docs))"
    and "offset_of ct = off0 + acc"
    and "off0 + acc < length (matching docs)"
    and "ct = None \<longrightarrow> h \<noteq> [] \<and> acc < maxResult"
  shows "(\<exists>e. tryQuery docs r h ct st = Inl e) \<or>
         (\<exists>st'. tryQuery docs r h ct st = Inr st' \<and>
            (if length (matching docs) \<le> off0 + reads acc h
             then returned st' = None \<and> result st' = drop off0 (matching docs)
             else returned st' = Some (off0 + reads acc h) \<and>
                  result st' = take (reads acc h) (drop off0 (matching docs))))"
  using assms
proof (induction h arbitrary: acc ct st)
  case Nil
  then have ct: "ct = Some (off0 + acc)" by (cases ct) (auto simp: offset_of_def)
  show ?case using Nil.prems(1,3) ct
    by (simp add: tryQuery.simps query_def Let_def returned_setBody result_setBody)
next
  case (Cons x h)
  let ?ms = "matching docs"
  have len: "length (result st) = acc" using Cons.prems(1,3) by simp
  show ?case
  proof (cases "maxResult \<le> acc")
    case True
    then have ct: "ct = Some (off0 + acc)" using Cons.prems(2,4) by (cases ct) (auto simp: offset_of_def)
    show ?thesis using True len Cons.prems(1,3) ct
      by (simp add: tryQuery.simps Let_def returned_setBody result_setBody reads_capped)
  next
    case False
    show ?thesis
    proof (cases x)
      case (ReadErr e)
      then show ?thesis using False len
        by (simp add: tryQuery.simps onReadDocuments.simps query_def Let_def)
    next
      case (Delivered n)
      let ?k = "min maxResult n"
      have app: "result st @ take ?k (drop (off0 + acc) ?ms) = take (acc + ?k) (drop off0 ?ms)"
        using Cons.prems(1) by (simp add: take_add add.commute)
      show ?thesis
      proof (cases "off0 + acc + ?k < length ?ms")
        case True
        have step: "tryQuery docs r (x # h) ct st
            = tryQuery docs r h (Some (off0 + acc + ?k)) (st\<lparr>result := take (acc + ?k) (drop off0 ?ms)\<rparr>)"
          using False len True Delivered Cons.prems(2) app
          by (simp add: tryQuery.simps[of _ _ "_ # _"] onReadDocuments.simps query_def page_def Let_def)
        have rd: "reads acc (x # h) = reads (acc + ?k) h" using False Delivered by simp
        from Cons.IH[of "st\<lparr>result := take (acc + ?k) (drop off0 ?ms)\<rparr>" "acc + ?k" "Some (off0 + acc + ?k)"] True
        show ?thesis unfolding step rd by (simp add: offset_of_def add.assoc)
      next
        case F2: False
        have rd: "reads acc (x # h) = reads (acc + ?k) h" using False Delivered by simp
        have ge: "length ?ms \<le> off0 + reads acc (x # h)"
          using F2 reads_ge[of "acc + ?k" h] unfolding rd by linarith
        have all: "take (acc + ?k) (drop off0 ?ms) = drop off0 ?ms" using F2 by simp
        have "tryQuery docs r (x # h) ct st
            = Inr (setBody r None (st\<lparr>result := drop off0 ?ms\<rparr>))"
          using False len F2 Delivered Cons.prems(2) app all
          by (simp add: tryQuery.simps onReadDocuments.simps query_def page_def Let_def)
        with ge show ?thesis by (simp add: returned_setBody result_setBody)
      qed
    qed
  qed
qed


lemma invoke_reads:
  assumes "offset_of ct = off0" "off0 < length (matching docs)" "ct = None \<longrightarrow> h \<noteq> []"
  shows "(\<exists>e. invoke docs h r ct = Inl e) \<or>
         (\<exists>st. invoke docs h r ct = Inr st \<and>
            (if length (matching docs) \<le> off0 + reads 0 h
             then returned st = None \<and> result st = drop off0 (matching docs)
             else returned st = Some (off0 + reads 0 h) \<and>
                  result st = take (reads 0 h) (drop off0 (matching docs))))"
  unfolding invoke_def
  using scan_reads[of "\<lparr>result = [], response = None\<rparr>" 0 off0 docs ct h r] assms
  by (simp add: maxResult_def)

lemma reinvoke_reads:
  assumes "offset_of ct = off0" "off0 < length (matching docs)"
    and "ct = None \<longrightarrow> fst (hd envs) \<noteq> []"
    and "\<not> aborts docs envs ct"
    and "length (matching docs) \<le> off0 + sum_list (map (\<lambda>(h, r). reads 0 h) envs)"
  shows "reinvoke docs (envs @ later) ct \<noteq> [] \<and>
         returned (last (reinvoke docs (envs @ later) ct)) = None \<and>
         list_all (\<lambda>st. returned st \<noteq> None) (butlast (reinvoke docs (envs @ later) ct)) \<and>
         concat (map result (reinvoke docs (envs @ later) ct)) = drop off0 (matching docs)"
  using assms
proof (induction envs arbitrary: ct off0)
  case Nil
  then show ?case by simp
next
  case (Cons e envs)
  let ?ms = "matching docs"
  obtain h r where e: "e = (h, r)" by (cases e)
  from Cons.prems(4) e obtain st where st: "invoke docs h r ct = Inr st"
    by (cases "invoke docs h r ct") auto
  from Cons.prems(3) e have ne: "ct = None \<longrightarrow> h \<noteq> []" by simp
  from invoke_reads[OF Cons.prems(1,2) ne, of r] st
  have ch: "if length ?ms \<le> off0 + reads 0 h
        then returned st = None \<and> result st = drop off0 ?ms
        else returned st = Some (off0 + reads 0 h) \<and> result st = take (reads 0 h) (drop off0 ?ms)"
    by simp
  show ?case
  proof (cases "length ?ms \<le> off0 + reads 0 h")
    case True
    with ch st show ?thesis by (simp add: e)
  next
    case False
    let ?o = "off0 + reads 0 h"
    from False ch have rt: "returned st = Some ?o" and rs: "result st = take (reads 0 h) (drop off0 ?ms)"
      by simp_all
    have run: "reinvoke docs ((e # envs) @ later) ct = st # reinvoke docs (envs @ later) (Some ?o)"
      using st rt by (simp add: e)
    have na: "\<not> aborts docs envs (Some ?o)" using Cons.prems(4) st rt by (simp add: e)
    have en: "length ?ms \<le> ?o + sum_list (map (\<lambda>(h, r). reads 0 h) envs)"
      using Cons.prems(5) by (simp add: e)
    have IH: "reinvoke docs (envs @ later) (Some ?o) \<noteq> [] \<and>
         returned (last (reinvoke docs (envs @ later) (Some ?o))) = None \<and>
         list_all (\<lambda>st. returned st \<noteq> None) (butlast (reinvoke docs (envs @ later) (Some ?o))) \<and>
         concat (map result (reinvoke docs (envs @ later) (Some ?o))) = drop ?o ?ms"
      using False by (intro Cons.IH[OF _ _ _ na en]) (simp_all add: offset_of_def)
    have "take (reads 0 h) (drop off0 ?ms) @ drop ?o ?ms = drop off0 ?ms"
      by (metis add.commute append_take_drop_id drop_drop)
    with IH rt rs show ?thesis unfolding run by simp
  qed
qed

lemma scan_clean:
  "(\<forall>e. ReadErr e \<notin> set h) \<Longrightarrow> \<exists>st'. tryQuery docs r h ct st = Inr st'"
proof (induction h arbitrary: ct st)
  case Nil
  then show ?case by (simp add: tryQuery.simps query_def Let_def)
next
  case (Cons x h)
  then obtain n where x: "x = Delivered n" by (cases x) auto
  from Cons have IH: "\<And>ct st. \<exists>st'. tryQuery docs r h ct st = Inr st'" by simp
  show ?case
    using IH
    by (auto simp: x tryQuery.simps[of _ _ "_ # _"] onReadDocuments.simps query_def Let_def
          split: prod.splits option.splits)
qed

lemma clean_never_aborts:
  "list_all (\<lambda>(h, r). \<forall>e. ReadErr e \<notin> set h) envs \<Longrightarrow> \<not> aborts docs envs ct"
proof (induction envs arbitrary: ct)
  case Nil
  then show ?case by simp
next
  case (Cons e envs)
  obtain h r where e: "e = (h, r)" by (cases e)
  from Cons.prems e scan_clean[of h docs r ct "\<lparr>result = [], response = None\<rparr>"]
  obtain st where "invoke docs h r ct = Inr st" by (auto simp: invoke_def)
  with Cons show ?case by (auto simp: e split: option.splits)
qed

lemma reinvoke_progress:
  assumes "0 < length (matching docs)"
    and "list_all (\<lambda>(h, r). (\<forall>e. ReadErr e \<notin> set h) \<and> 0 < reads 0 h) envs"
    and "fst (hd envs) \<noteq> []"
    and "length (matching docs) \<le> length envs"
  shows "reinvoke docs (envs @ later) None \<noteq> [] \<and>
         returned (last (reinvoke docs (envs @ later) None)) = None \<and>
         list_all (\<lambda>st. returned st \<noteq> None) (butlast (reinvoke docs (envs @ later) None)) \<and>
         concat (map result (reinvoke docs (envs @ later) None)) = matching docs"
proof -
  have na: "\<not> aborts docs envs None"
    using assms(2) by (intro clean_never_aborts) (auto simp: list_all_iff)
  have "length envs \<le> sum_list (map (\<lambda>(h, r). reads 0 h) envs)"
    using assms(2) by (induction envs) (auto simp: Suc_le_eq add_strict_increasing
        intro: add_mono order.trans)
  with assms(4) have en: "length (matching docs) \<le> 0 + sum_list (map (\<lambda>(h, r). reads 0 h) envs)"
    by simp
  have o: "offset_of None = 0" by (simp add: offset_of_def)
  from reinvoke_reads[OF o assms(1) _ na en, of later] assms(3) show ?thesis by simp
qed




section \<open>Properties of \<open>getStoredProcedure\<close>\<close>

lemma getStoredProcedure_found:
  "sprocId \<in> set (map defId (sprocs container)) \<Longrightarrow>
     getStoredProcedure sprocId container sc = (Some (StoredProcedure sprocId), container)"
  by (auto simp: getStoredProcedure_def Let_def find_None_iff)

lemma getStoredProcedure_count:
  "length (filter (\<lambda>d. defId d = sprocId) (sprocs (snd (getStoredProcedure sprocId c sc))))
     \<le> max 1 (length (filter (\<lambda>d. defId d = sprocId) (sprocs c)))"
proof (cases "sprocId \<in> set (map defId (sprocs c))")
  case True
  then show ?thesis by (simp add: getStoredProcedure_found)
next
  case False
  then have "filter (\<lambda>d. defId d = sprocId) (sprocs c) = []"
    by (auto simp: filter_empty_conv)
  with False show ?thesis
    by (auto simp: getStoredProcedure_def Let_def find_None_iff storedProcedures_create_def)
qed

lemma getStoredProcedure_once:
  "length (filter (\<lambda>d. defId d = sprocId)
     (sprocs (fold (\<lambda>sc c. snd (getStoredProcedure sprocId c sc)) scs c)))
     \<le> max 1 (length (filter (\<lambda>d. defId d = sprocId) (sprocs c)))"
proof (induction scs arbitrary: c)
  case Nil
  then show ?case by simp
next
  case (Cons sc scs)
  from Cons.IH[of "snd (getStoredProcedure sprocId c sc)"] getStoredProcedure_count[of sprocId c sc]
  show ?case by simp
qed

text \<open>
  Claim C8. When a procedure with the target name exists in the container,
  \<open>getStoredProcedure\<close> returns a handle to it and leaves the container as it is:
  nothing is created or updated, whatever the store would answer to a creation. The bodies
  are not looked at: with the bodies replaced by any others the same handle is returned.
  Any sequence of further calls leaves the container unchanged.
\<close>

theorem getStoredProcedure_existing:
  assumes "sprocId \<in> set (map defId (sprocs container))"
  shows "getStoredProcedure sprocId container sc = (Some (StoredProcedure sprocId), container) \<and>
         fst (getStoredProcedure sprocId
                (container\<lparr>sprocs := map (\<lambda>d. d\<lparr>defBody := f d\<rparr>) (sprocs container)\<rparr>) sc)
           = Some (StoredProcedure sprocId) \<and>
         fold (\<lambda>sc c. snd (getStoredProcedure sprocId c sc)) scs container = container"
proof (intro conjI)
  show "getStoredProcedure sprocId container sc = (Some (StoredProcedure sprocId), container)"
    using assms by (rule getStoredProcedure_found)
  have "sprocId \<in> set (map defId (sprocs
          (container\<lparr>sprocs := map (\<lambda>d. d\<lparr>defBody := f d\<rparr>) (sprocs container)\<rparr>)))"
    using assms by (simp add: comp_def)
  then show "fst (getStoredProcedure sprocId
                (container\<lparr>sprocs := map (\<lambda>d. d\<lparr>defBody := f d\<rparr>) (sprocs container)\<rparr>) sc)
           = Some (StoredProcedure sprocId)"
    by (simp only: getStoredProcedure_found fst_conv)
  show "fold (\<lambda>sc c. snd (getStoredProcedure sprocId c sc)) scs container = container"
    using assms by (induction scs) (simp_all add: getStoredProcedure_found)
qed

theorem getStoredProcedure_existing_witness:
  "getStoredProcedure ''getRandomTheme'' 
       \<lparr>items = [], sprocs = [\<lparr>defId = ''getRandomTheme'', defBody = (\<lambda>docs h r ct. Inl ''old'')\<rparr>]\<rparr> 200
     = (Some (StoredProcedure ''getRandomTheme''), 
       \<lparr>items = [], sprocs = [\<lparr>defId = ''getRandomTheme'', defBody = (\<lambda>docs h r ct. Inl ''old'')\<rparr>]\<rparr>) \<and>
   fst (getStoredProcedure ''getRandomTheme''
          (
       \<lparr>items = [], sprocs = [\<lparr>defId = ''getRandomTheme'', defBody = (\<lambda>docs h r ct. Inl ''old'')\<rparr>]\<rparr>\<lparr>sprocs := map (\<lambda>d. d\<lparr>defBody := getRandomTheme\<rparr>) (sprocs 
       \<lparr>items = [], sprocs = [\<lparr>defId = ''getRandomTheme'', defBody = (\<lambda>docs h r ct. Inl ''old'')\<rparr>]\<rparr>)\<rparr>) 200)
     = Some (StoredProcedure ''getRandomTheme'') \<and>
   fold (\<lambda>sc c. snd (getStoredProcedure ''getRandomTheme'' c sc)) [200, 201, 500] 
       \<lparr>items = [], sprocs = [\<lparr>defId = ''getRandomTheme'', defBody = (\<lambda>docs h r ct. Inl ''old'')\<rparr>]\<rparr> = 
       \<lparr>items = [], sprocs = [\<lparr>defId = ''getRandomTheme'', defBody = (\<lambda>docs h r ct. Inl ''old'')\<rparr>]\<rparr>"
proof -
  have h: "''getRandomTheme'' \<in> set (map defId (sprocs 
       \<lparr>items = [], sprocs = [\<lparr>defId = ''getRandomTheme'', defBody = (\<lambda>docs h r ct. Inl ''old'')\<rparr>]\<rparr>))"
    by simp
  show ?thesis by (rule getStoredProcedure_existing[OF h])
qed

section \<open>Properties of the handler \<open>ExtensionUpsert\<close>\<close>

text \<open>
  Claim C1. For every present extension the handler ends without an error and with the
  response 404, whichever store call failed or none: the \<open>try\<close> statement has stored
  200 with the id of the resource when the upsert succeeded, and 500 with the error when a
  store call failed, and the trailing assignment overwrites either.
\<close>

theorem upsert_always_404:
  "(\<exists>c w'. httpTrigger_ExtensionUpsert f (context\<lparr>bindings_extension := Some ext\<rparr>) w = (None, c, w') \<and>
       res c = Some \<lparr>status = 404, body = NoBody\<rparr>) \<and>
   res (fst (tryUpsert NoFault ext context w)) = Some \<lparr>status = 200, body = IdBody (extId ext)\<rparr> \<and>
   res (fst (tryUpsert (DatabaseFault err) ext context w)) = Some \<lparr>status = 500, body = ErrBody err\<rparr> \<and>
   res (fst (tryUpsert (ContainerFault err) ext context w)) = Some \<lparr>status = 500, body = ErrBody err\<rparr> \<and>
   res (fst (tryUpsert (UpsertFault err) ext context w)) = Some \<lparr>status = 500, body = ErrBody err\<rparr>"
  by (simp add: httpTrigger_ExtensionUpsert_def upsertIfPresent_def tryUpsert_def Let_def
        split: prod.splits)

text \<open>
  Claim C5 does not hold of the code: with an absent extension the handler throws a
  \<open>TypeError\<close> at the log line, before the guard; the stored data and the context are
  unchanged and no response is assigned.
\<close>

theorem upsert_absent_throws:
  "httpTrigger_ExtensionUpsert f (context\<lparr>bindings_extension := None\<rparr>) w
     = (Some (TypeError ''displayName''), context\<lparr>bindings_extension := None\<rparr>, w)"
  by (simp add: httpTrigger_ExtensionUpsert_def)

section \<open>Properties of the handler \<open>ThemeExtensionFetch\<close>\<close>

lemma obtainProcedure_handle:
  assumes "obtainProcedure env w = (sproc, c, es, w1)"
  shows "executions w1 = executions w" "sproc = None \<or> sproc = Some (StoredProcedure ''getRandomTheme'')"
  using assms
  by (auto simp: obtainProcedure_def createDatabaseIfNotExists_def createThemesIfNotExists_def
        createExtensionsIfNotExists_def getStoredProcedure_def Let_def
        split: option.splits if_splits prod.splits)

lemma fetch_resolved:
  "resolveTheme env w = (Inr (Some t, es), w') \<Longrightarrow>
     httpTrigger_ThemeExtensionFetch env userId context w
       = (None,
          context\<lparr>res := Some \<lparr>status = 200,
            body = PairBody (Some t)
                     (js_first (filter (\<lambda>c. extensionId c = themeExtensionId t) es))\<rparr>\<rparr>,
          w')"
  by (simp add: httpTrigger_ThemeExtensionFetch_def Let_def)

lemma fetch_unresolved:
  "resolveTheme env w = (Inr (None, es), w') \<Longrightarrow>
     httpTrigger_ThemeExtensionFetch env userId context w
       = (Some (TypeError ''extensionId''), context, w')"
  by (simp add: httpTrigger_ThemeExtensionFetch_def)

lemma fetch_status:
  "httpTrigger_ThemeExtensionFetch env userId context w = (None, c, w') \<Longrightarrow>
     \<exists>b. res c = Some \<lparr>status = 200, body = b\<rparr>"
  by (auto simp: httpTrigger_ThemeExtensionFetch_def Let_def
        split: prod.splits sum.splits option.splits)

text \<open>
  Claim C9. Given a theme record whose \<open>extensionId\<close> matches no extension document,
  the handler does not throw: it responds 200 with the theme and an absent extension.
\<close>

theorem fetch_without_extension:
  assumes "resolveTheme env w = (Inr (Some t, es), w')"
    and "filter (\<lambda>c. extensionId c = themeExtensionId t) es = []"
  shows "httpTrigger_ThemeExtensionFetch env userId context w
           = (None, context\<lparr>res := Some \<lparr>status = 200, body = PairBody (Some t) None\<rparr>\<rparr>, w')"
  using assms by (simp add: httpTrigger_ThemeExtensionFetch_def js_first_def)

theorem fetch_without_extension_witness:
  "httpTrigger_ThemeExtensionFetch \<lparr>createStatus = 200, sprocHost = [Delivered 1000], rnd = 0\<rparr> None
     \<lparr>bindings_extension = None, logged = [], res = None\<rparr>
     \<lparr>databaseExists = True,
      themes = Some \<lparr>items = [\<lparr>themeId = ''a'', themeExtensionId = ''e'', imageCaptured = True\<rparr>], sprocs = []\<rparr>,
      extensions = Some [\<lparr>extId = ''1'', extensionId = ''f'', displayName = ''F''\<rparr>], executions = []\<rparr>
   = (None,
      \<lparr>bindings_extension = None, logged = [],
       res = Some \<lparr>status = 200,
         body = PairBody (Some \<lparr>themeId = ''a'', themeExtensionId = ''e'', imageCaptured = True\<rparr>) None\<rparr>\<rparr>,
      \<lparr>databaseExists = True,
       themes = Some \<lparr>items = [\<lparr>themeId = ''a'', themeExtensionId = ''e'', imageCaptured = True\<rparr>],
                      sprocs = [\<lparr>defId = ''getRandomTheme'', defBody = getRandomTheme\<rparr>]\<rparr>,
       extensions = Some [\<lparr>extId = ''1'', extensionId = ''f'', displayName = ''F''\<rparr>],
       executions = [(''getRandomTheme'', None)]\<rparr>)"
proof -
  have r: "resolveTheme \<lparr>createStatus = 200, sprocHost = [Delivered 1000], rnd = 0\<rparr>
     \<lparr>databaseExists = True,
      themes = Some \<lparr>items = [\<lparr>themeId = ''a'', themeExtensionId = ''e'', imageCaptured = True\<rparr>], sprocs = []\<rparr>,
      extensions = Some [\<lparr>extId = ''1'', extensionId = ''f'', displayName = ''F''\<rparr>], executions = []\<rparr>
    = (Inr (Some \<lparr>themeId = ''a'', themeExtensionId = ''e'', imageCaptured = True\<rparr>,
            [\<lparr>extId = ''1'', extensionId = ''f'', displayName = ''F''\<rparr>]),
       \<lparr>databaseExists = True,
       themes = Some \<lparr>items = [\<lparr>themeId = ''a'', themeExtensionId = ''e'', imageCaptured = True\<rparr>],
                      sprocs = [\<lparr>defId = ''getRandomTheme'', defBody = getRandomTheme\<rparr>]\<rparr>,
       extensions = Some [\<lparr>extId = ''1'', extensionId = ''f'', displayName = ''F''\<rparr>],
       executions = [(''getRandomTheme'', None)]\<rparr>)"
    by (simp add: fetch_defs sproc_defs)
  show ?thesis
    using fetch_without_extension[OF r, of None "\<lparr>bindings_extension = None, logged = [], res = None\<rparr>"]
    by simp
qed

text \<open>
  Claim C4 does not hold of the code where the theme is not resolved. On an empty
  account the procedure chooses no id and the handler throws a \<open>TypeError\<close> at
  \<open>randomTheme.id\<close>; when the id query returns no document (here the procedure found
  under the name returns an id no theme has) the handler throws a \<open>TypeError\<close> at
  \<open>theme.extensionId\<close>. Neither request is answered 404.
\<close>

theorem fetch_absent_theme:
  "httpTrigger_ThemeExtensionFetch \<lparr>createStatus = 200, sprocHost = [Delivered 1000], rnd = 0\<rparr> userId context
     \<lparr>databaseExists = False, themes = None, extensions = None, executions = []\<rparr>
   = (Some (TypeError ''id''), context,
      \<lparr>databaseExists = True,
       themes = Some \<lparr>items = [], sprocs = [\<lparr>defId = ''getRandomTheme'', defBody = getRandomTheme\<rparr>]\<rparr>,
       extensions = Some [], executions = [(''getRandomTheme'', None)]\<rparr>) \<and>
   httpTrigger_ThemeExtensionFetch \<lparr>createStatus = 200, sprocHost = [Delivered 1000], rnd = 0\<rparr> userId context
     \<lparr>databaseExists = True,
      themes = Some \<lparr>items = [\<lparr>themeId = ''a'', themeExtensionId = ''e'', imageCaptured = True\<rparr>],
        sprocs = [\<lparr>defId = ''getRandomTheme'',
                   defBody = (\<lambda>docs h r ct. Inr (Some \<lparr>randomTheme = Some ''b'', continuationToken = None\<rparr>))\<rparr>]\<rparr>,
      extensions = Some [], executions = []\<rparr>
   = (Some (TypeError ''extensionId''), context,
      \<lparr>databaseExists = True,
      themes = Some \<lparr>items = [\<lparr>themeId = ''a'', themeExtensionId = ''e'', imageCaptured = True\<rparr>],
        sprocs = [\<lparr>defId = ''getRandomTheme'',
                   defBody = (\<lambda>docs h r ct. Inr (Some \<lparr>randomTheme = Some ''b'', continuationToken = None\<rparr>))\<rparr>]\<rparr>,
      extensions = Some [], executions = [(''getRandomTheme'', None)]\<rparr>)"
  by (simp add: fetch_defs sproc_defs)

text \<open>
  Claim C6, amended. In every request in which \<open>getStoredProcedure\<close> yields a
  handle, the handler executes the procedure \<open>getRandomTheme\<close> exactly once, with the
  empty token, and when that execution returns an id the theme is looked up by this id,
  whatever continuation token came with it. In a request in which no handle is obtained
  the handler throws and executes nothing.
\<close>

theorem fetch_invokes_once:
  "(obtainProcedure env w = (Some sp, c, es, w1) \<longrightarrow>
      sp = StoredProcedure ''getRandomTheme'' \<and>
      executions (snd (snd (httpTrigger_ThemeExtensionFetch env userId context w)))
        = executions w @ [(''getRandomTheme'', None)] \<and>
      (\<forall>b x. execute sp c (sprocHost env) (rnd env) None = Inr (Some b) \<and> randomTheme b = Some x \<longrightarrow>
         resolveTheme env w
           = (Inr (js_first (filter (\<lambda>t. themeId t = x) (items c)), es),
              w1\<lparr>executions := executions w @ [(''getRandomTheme'', None)]\<rparr>))) \<and>
   (obtainProcedure env w = (None, c, es, w1) \<longrightarrow>
      httpTrigger_ThemeExtensionFetch env userId context w
        = (Some (Thrown ''An error occurred while fetching the storedProcedure''), context, w1) \<and>
      executions w1 = executions w)"
proof (intro conjI impI allI)
  assume a: "obtainProcedure env w = (Some sp, c, es, w1)"
  from obtainProcedure_handle[OF a] have sp: "sp = StoredProcedure ''getRandomTheme''"
    and ex: "executions w1 = executions w" by simp_all
  show "sp = StoredProcedure ''getRandomTheme''" by (rule sp)
  have "executions (snd (resolveTheme env w)) = executions w @ [(''getRandomTheme'', None)]"
    using a sp ex by (simp add: resolveTheme_def Let_def split: sum.splits option.splits)
  moreover have "snd (snd (httpTrigger_ThemeExtensionFetch env userId context w)) = snd (resolveTheme env w)"
    by (simp add: httpTrigger_ThemeExtensionFetch_def Let_def split: prod.splits sum.splits option.splits)
  ultimately show "executions (snd (snd (httpTrigger_ThemeExtensionFetch env userId context w)))
        = executions w @ [(''getRandomTheme'', None)]" by simp
  fix b x
  assume "execute sp c (sprocHost env) (rnd env) None = Inr (Some b) \<and> randomTheme b = Some x"
  then show "resolveTheme env w
           = (Inr (js_first (filter (\<lambda>t. themeId t = x) (items c)), es),
              w1\<lparr>executions := executions w @ [(''getRandomTheme'', None)]\<rparr>)"
    using a sp ex by (simp add: resolveTheme_def Let_def)
next
  assume a: "obtainProcedure env w = (None, c, es, w1)"
  then show "httpTrigger_ThemeExtensionFetch env userId context w
        = (Some (Thrown ''An error occurred while fetching the storedProcedure''), context, w1)"
    by (simp add: httpTrigger_ThemeExtensionFetch_def resolveTheme_def)
  from obtainProcedure_handle(1)[OF a] show "executions w1 = executions w" .
qed

theorem fetch_invokes_once_witness:
  "executions (snd (snd (httpTrigger_ThemeExtensionFetch
       \<lparr>createStatus = 200, sprocHost = [Delivered 1], rnd = 0\<rparr> None
       \<lparr>bindings_extension = None, logged = [], res = None\<rparr>
       \<lparr>databaseExists = True,
        themes = Some \<lparr>items = [\<lparr>themeId = ''a'', themeExtensionId = ''e'', imageCaptured = True\<rparr>,
                                 \<lparr>themeId = ''b'', themeExtensionId = ''e'', imageCaptured = True\<rparr>],
                       sprocs = [\<lparr>defId = ''getRandomTheme'', defBody = getRandomTheme\<rparr>]\<rparr>,
        extensions = Some [], executions = []\<rparr>)))
     = [(''getRandomTheme'', None)] \<and>
   fst (resolveTheme \<lparr>createStatus = 200, sprocHost = [Delivered 1], rnd = 0\<rparr>
       \<lparr>databaseExists = True,
        themes = Some \<lparr>items = [\<lparr>themeId = ''a'', themeExtensionId = ''e'', imageCaptured = True\<rparr>,
                                 \<lparr>themeId = ''b'', themeExtensionId = ''e'', imageCaptured = True\<rparr>],
                       sprocs = [\<lparr>defId = ''getRandomTheme'', defBody = getRandomTheme\<rparr>]\<rparr>,
        extensions = Some [], executions = []\<rparr>)
     = Inr (Some \<lparr>themeId = ''a'', themeExtensionId = ''e'', imageCaptured = True\<rparr>, [])"
proof -
  let ?env = "\<lparr>createStatus = 200, sprocHost = [Delivered 1], rnd = 0\<rparr>"
  let ?c = "\<lparr>items = [\<lparr>themeId = ''a'', themeExtensionId = ''e'', imageCaptured = True\<rparr>,
                                 \<lparr>themeId = ''b'', themeExtensionId = ''e'', imageCaptured = True\<rparr>],
                       sprocs = [\<lparr>defId = ''getRandomTheme'', defBody = getRandomTheme\<rparr>]\<rparr>"
  let ?w = "\<lparr>databaseExists = True, themes = Some ?c, extensions = Some [], executions = []\<rparr>"
  have o: "obtainProcedure ?env ?w = (Some (StoredProcedure ''getRandomTheme''), ?c, [], ?w)"
    by (simp add: fetch_defs)
  have e: "execute (StoredProcedure ''getRandomTheme'') ?c (sprocHost ?env) (rnd ?env) None
             = Inr (Some \<lparr>randomTheme = Some ''a'', continuationToken = Some 1\<rparr>)"
    by (simp add: fetch_defs sproc_defs)
  from fetch_invokes_once[of ?env ?w "StoredProcedure ''getRandomTheme''" ?c "[]" ?w None
      "\<lparr>bindings_extension = None, logged = [], res = None\<rparr>"] o e
  show ?thesis by (simp add: js_first_def)
qed

text \<open>
  Claim C6 as stated fails: when the procedure is missing and the store answers its
  creation with 201, the handler throws without executing the procedure.
\<close>

theorem fetch_invokes_once_counterexample:
  "httpTrigger_ThemeExtensionFetch \<lparr>createStatus = 201, sprocHost = [Delivered 1000], rnd = 0\<rparr> None
     \<lparr>bindings_extension = None, logged = [], res = None\<rparr>
     \<lparr>databaseExists = True,
      themes = Some \<lparr>items = [\<lparr>themeId = ''a'', themeExtensionId = ''e'', imageCaptured = True\<rparr>], sprocs = []\<rparr>,
      extensions = Some [], executions = []\<rparr>
   = (Some (Thrown ''An error occurred while fetching the storedProcedure''),
      \<lparr>bindings_extension = None, logged = [], res = None\<rparr>,
      \<lparr>databaseExists = True,
       themes = Some \<lparr>items = [\<lparr>themeId = ''a'', themeExtensionId = ''e'', imageCaptured = True\<rparr>],
                      sprocs = [\<lparr>defId = ''getRandomTheme'', defBody = getRandomTheme\<rparr>]\<rparr>,
       extensions = Some [], executions = []\<rparr>)"
  by (simp add: fetch_defs sproc_defs)

end
